theory Spec2Isabelle
  imports Complex_Main "HOL-Library.Sublist"
begin

section \<open>Data model of \<open>src/app.py\<close>\<close>

text \<open>
  \<open>class BoundingBox(BaseModel)\<close>: four Python integers (unbounded, hence \<open>int\<close>) and an
  optional label. The field names carry the prefix \<open>box_\<close> because \<open>x\<close>, \<open>y\<close>, \<open>width\<close>
  and \<open>height\<close> are also fields of the image.
\<close>

record BoundingBox =
  box_x :: int
  box_y :: int
  box_width :: int
  box_height :: int
  box_label :: "string option"

text \<open>
  A decoded \<open>PIL.Image.Image\<close> in mode RGB: its \<open>width\<close> and \<open>height\<close> attributes and
  the pixel at column \<open>i\<close>, row \<open>j\<close> (an RGB triple packed into one number). Only the
  pixels with \<open>0 \<le> i < width\<close> and \<open>0 \<le> j < height\<close> belong to the image.
\<close>

record Image =
  img_width :: int
  img_height :: int
  img_pixel :: "int \<Rightarrow> int \<Rightarrow> nat"

text \<open>
  Exceptions as values. \<open>HTTPException\<close> is FastAPI's exception with its \<open>status_code\<close>
  and \<open>detail\<close>; \<open>OtherException\<close> stands for every other subclass of Python's
  \<open>Exception\<close> and carries the text \<open>str(e)\<close>.
\<close>

datatype exn = HTTPException int string | OtherException string

text \<open>
  What the model library can raise inside the \<open>try\<close> block of \<open>detect_objects\<close>: an
  \<open>ImportError\<close>, or another exception \<open>e\<close> with its text \<open>str(e)\<close>. The two handlers of
  lines 174-180 tell them apart.
\<close>

datatype raised = ImportError | Raised string

text \<open>
  \<open>class CropRequest(BaseModel)\<close>. URLs are kept as the strings \<open>str(url)\<close>; the float
  \<open>confidence_threshold\<close> is only handed on to the detectors.
\<close>

record CropRequest =
  image_url :: "string option"
  image_urls :: "string list option"
  bounding_boxes :: "BoundingBox list option"
  use_detection :: bool
  detect_windows_only :: bool
  confidence_threshold :: real
  clear_previous :: bool

text \<open>One detection of the YOLO model after the \<open>int(...)\<close> conversions of lines 144-152:
  the box and the class name \<open>model.names[cls]\<close>.\<close>

record Detection =
  det_x :: int
  det_y :: int
  det_width :: int
  det_height :: int
  det_label :: string

text \<open>
  The collaborators the code calls and that are not part of the repository, taken as
  parameters:
  \<^item> \<open>fetch url\<close>: \<open>requests.get\<close>, \<open>raise_for_status\<close>, \<open>Image.open\<close> and the conversion
    to RGB (lines 92-98); \<open>Inl s\<close> is an exception with \<open>str(e) = s\<close>.
  \<^item> \<open>cv2_candidates img conf\<close>: the OpenCV pipeline of \<open>detect_windows_advanced\<close> up to
    the list handed to \<open>remove_overlapping_boxes\<close> (lines 189-231); \<open>None\<close> when
    OpenCV cannot be imported or raises.
  \<^item> \<open>yolo_importable\<close>: whether \<open>from ultralytics import YOLO\<close> succeeds;
    \<open>yolo_run img conf\<close>: loading and running the model (lines 134-152), which may
    raise an \<open>ImportError\<close> of its own or any other exception.
  \<^item> \<open>float_div a b\<close>: Python's true division \<open>a / b\<close> of two integers, the float
    nearest to the quotient; \<open>float_mul n x\<close>: the product \<open>n * x\<close> of an integer and a
    float, again a float. A float is the real number it denotes, and comparisons of
    floats and integers are exact, as they are in Python. The quotient of line 323 lies
    between 0 and 1; the operands of lines 156-164 are taken to be within the range of
    the floats, so that neither operation raises \<open>OverflowError\<close>.
  \<^item> \<open>jpeg_save img\<close>: \<open>cropped.save(img_bytes, format="JPEG", quality=95)\<close>;
    \<open>upload bytes filename\<close>: \<open>upload_to_cloud_storage\<close>, which catches every failure of
    the remote stores and ends in the base64 data URL.
  \<^item> \<open>str_box\<close>: pydantic's \<open>str(bbox)\<close>; \<open>str_http\<close>: Starlette's \<open>str\<close> of an
    \<open>HTTPException\<close> with the given status code and detail.
  \<^item> \<open>uuid_hex\<close>, \<open>utc_now\<close>, \<open>OUTPUT_DIR\<close>: \<open>uuid.uuid4().hex\<close>, the formatted
    \<open>datetime.utcnow()\<close> and the resolved output directory.
\<close>

record world =
  fetch :: "string \<Rightarrow> string + Image"
  cv2_candidates :: "Image \<Rightarrow> real \<Rightarrow> BoundingBox list option"
  yolo_importable :: bool
  yolo_run :: "Image \<Rightarrow> real \<Rightarrow> raised + Detection list"
  float_div :: "int \<Rightarrow> int \<Rightarrow> real"
  float_mul :: "int \<Rightarrow> real \<Rightarrow> real"
  jpeg_save :: "Image \<Rightarrow> string + nat list"
  upload :: "nat list \<Rightarrow> string \<Rightarrow> string"
  str_box :: "BoundingBox \<Rightarrow> string"
  str_http :: "int \<Rightarrow> string \<Rightarrow> string"
  uuid_hex :: string
  utc_now :: string
  OUTPUT_DIR :: string

section \<open>Geometry: \<open>crop_bounding_box\<close>\<close>

text \<open>
  \<open>Image.crop((left, upper, right, lower))\<close> of Pillow: a new image of size
  \<open>right - left\<close> by \<open>lower - upper\<close> whose pixel \<open>(i, j)\<close> is the source pixel
  \<open>(left + i, upper + j)\<close>; what lies outside the source is filled with zero.
\<close>

definition crop :: "Image \<Rightarrow> int \<times> int \<times> int \<times> int \<Rightarrow> Image" where
  "crop img r = (case r of (left, upper, right, lower) \<Rightarrow>
     \<lparr> img_width = right - left,
       img_height = lower - upper,
       img_pixel = (\<lambda>i j.
         if 0 \<le> left + i \<and> left + i < img_width img \<and>
            0 \<le> upper + j \<and> upper + j < img_height img
         then img_pixel img (left + i) (upper + j) else 0) \<rparr>)"

text \<open>
  Lines 106-109 of \<open>crop_bounding_box\<close>: the four local variables \<open>x\<close>, \<open>y\<close>, \<open>width\<close>,
  \<open>height\<close>, collected in a box that keeps the label of \<open>bbox\<close>.
\<close>

definition clamp :: "Image \<Rightarrow> BoundingBox \<Rightarrow> BoundingBox" where
  "clamp img bbox =
     (let x = max 0 (box_x bbox);
          y = max 0 (box_y bbox);
          width = min (box_width bbox) (img_width img - x);
          height = min (box_height bbox) (img_height img - y)
      in bbox\<lparr> box_x := x, box_y := y, box_width := width, box_height := height \<rparr>)"

definition crop_bounding_box :: "world \<Rightarrow> Image \<Rightarrow> BoundingBox \<Rightarrow> exn + Image" where
  "crop_bounding_box env img bbox =
     (let x = max 0 (box_x bbox);
          y = max 0 (box_y bbox);
          width = min (box_width bbox) (img_width img - x);
          height = min (box_height bbox) (img_height img - y)
      in if width \<le> 0 \<or> height \<le> 0
         then Inl (HTTPException 400 (''Invalid bounding box: '' @ str_box env bbox))
         else Inr (crop img (x, y, x + width, y + height)))"

text \<open>
  The clamp of the specification (section 4.1), written from its words: the recomputed
  box, or \<open>None\<close> for the rejection \<open>InvalidGeometry\<close>.
\<close>

definition clamp_spec :: "BoundingBox \<Rightarrow> int \<Rightarrow> int \<Rightarrow> BoundingBox option" where
  "clamp_spec box image_width image_height =
     (let x' = max 0 (box_x box);
          y' = max 0 (box_y box);
          w' = min (box_width box) (image_width - x');
          h' = min (box_height box) (image_height - y')
      in if w' \<le> 0 \<or> h' \<le> 0 then None
         else Some (box\<lparr> box_x := x', box_y := y', box_width := w', box_height := h' \<rparr>))"

text \<open>An all-black image of the given size and a box without a label, for the examples.\<close>

definition blank :: "int \<Rightarrow> int \<Rightarrow> Image" where
  "blank w h = \<lparr> img_width = w, img_height = h, img_pixel = (\<lambda>i j. 0) \<rparr>"

definition mk_box :: "int \<Rightarrow> int \<Rightarrow> int \<Rightarrow> int \<Rightarrow> BoundingBox" where
  "mk_box x y w h = \<lparr> box_x = x, box_y = y, box_width = w, box_height = h, box_label = None \<rparr>"

section \<open>Overlap suppression: \<open>remove_overlapping_boxes\<close>\<close>

text \<open>
  The body of the inner loop (lines 313-327) for one pair: the intersection rectangle,
  and, only when it is not empty, the intersection over union compared with the
  threshold. Python's \<open>/\<close> on integers is the float division \<open>float_div\<close>; the threshold
  is a float, and \<open>iou > overlap_threshold\<close> compares the two floats exactly.
\<close>

definition overlaps :: "world \<Rightarrow> real \<Rightarrow> BoundingBox \<Rightarrow> BoundingBox \<Rightarrow> bool" where
  "overlaps env overlap_threshold box existing_box =
     (let x1 = max (box_x box) (box_x existing_box);
          y1 = max (box_y box) (box_y existing_box);
          x2 = min (box_x box + box_width box) (box_x existing_box + box_width existing_box);
          y2 = min (box_y box + box_height box) (box_y existing_box + box_height existing_box)
      in if x2 > x1 \<and> y2 > y1
         then (let intersection = (x2 - x1) * (y2 - y1);
                   area1 = box_width box * box_height box;
                   area2 = box_width existing_box * box_height existing_box;
                   union = area1 + area2 - intersection;
                   iou = (if union > 0 then float_div env intersection union else 0)
               in iou > overlap_threshold)
         else False)"

text \<open>
  The outer loop (lines 309-330): \<open>filtered\<close> is the list built so far; the inner loop
  with its \<open>break\<close> is the search for an overlapping box in \<open>filtered\<close>.
\<close>

fun suppress ::
  "world \<Rightarrow> real \<Rightarrow> BoundingBox list \<Rightarrow> BoundingBox list \<Rightarrow> BoundingBox list" where
  "suppress env t filtered [] = filtered"
| "suppress env t filtered (box # rest) =
     (let is_overlapping = list_ex (overlaps env t box) filtered
      in suppress env t (if \<not> is_overlapping then filtered @ [box] else filtered) rest)"

text \<open>
  \<open>list.sort(key=..., reverse=True)\<close> is stable: boxes of equal area keep their input
  order. \<open>sort_key\<close> is a stable ascending insertion sort, so the descending order is the
  ascending order of the negated area.
\<close>

definition remove_overlapping_boxes ::
  "world \<Rightarrow> BoundingBox list \<Rightarrow> real \<Rightarrow> BoundingBox list" where
  "remove_overlapping_boxes env boxes overlap_threshold =
     (if boxes = [] then boxes
      else (let boxes_with_area = map (\<lambda>box. (box, box_width box * box_height box)) boxes;
                sorted_boxes = sort_key (\<lambda>p. - snd p) boxes_with_area
            in suppress env overlap_threshold [] (map fst sorted_boxes)))"

text \<open>
  The intersection over union of the specification (section 4.1), a float: the quotient
  the code computes for intersecting rectangles, and 0 when the rectangles do not
  overlap.
\<close>

definition intersectionOverUnion :: "world \<Rightarrow> BoundingBox \<Rightarrow> BoundingBox \<Rightarrow> real" where
  "intersectionOverUnion env a b =
     (let x1 = max (box_x a) (box_x b);
          y1 = max (box_y a) (box_y b);
          x2 = min (box_x a + box_width a) (box_x b + box_width b);
          y2 = min (box_y a + box_height a) (box_y b + box_height b)
      in if x2 > x1 \<and> y2 > y1
         then (let intersection = (x2 - x1) * (y2 - y1);
                   union = box_width a * box_height a + box_width b * box_height b - intersection
               in if union > 0 then float_div env intersection union else 0)
         else 0)"

section \<open>Detection: \<open>detect_windows_advanced\<close> and \<open>detect_objects\<close>\<close>

text \<open>
  \<open>detect_windows_advanced\<close>: the candidates of the OpenCV pipeline go through the
  overlap suppression with threshold 0.5; a missing OpenCV or any exception gives the
  empty list (lines 237-241).
\<close>

definition detect_windows_advanced :: "world \<Rightarrow> Image \<Rightarrow> real \<Rightarrow> BoundingBox list" where
  "detect_windows_advanced env img confidence =
     (case cv2_candidates env img confidence of
        None \<Rightarrow> []
      | Some candidates \<Rightarrow> remove_overlapping_boxes env candidates (5 / 10))"

text \<open>
  The float literals \<open>0.3\<close>, \<open>0.005\<close> and \<open>0.9\<close> of lines 162-164, as the real numbers
  these floats denote (\<open>3.0\<close> and the threshold \<open>0.5\<close> are exact).
\<close>

definition float_0_3 :: real where
  "float_0_3 = 5404319552844595 / 18014398509481984"

definition float_0_005 :: real where
  "float_0_005 = 5764607523034235 / 1152921504606846976"

definition float_0_9 :: real where
  "float_0_9 = 8106479329266893 / 9007199254740992"

text \<open>The filter of lines 156-164 on one detection in windows-only mode.\<close>

definition window_like :: "world \<Rightarrow> Image \<Rightarrow> Detection \<Rightarrow> bool" where
  "window_like env img d =
     (let aspect_ratio = (if det_height d > 0
                          then float_div env (det_width d) (det_height d) else 0);
          area = det_width d * det_height d;
          img_area = img_width img * img_height img
      in float_0_3 \<le> aspect_ratio \<and> aspect_ratio \<le> 3 \<and>
         real_of_int area > float_mul env img_area float_0_005 \<and>
         real_of_int area < float_mul env img_area float_0_9)"

text \<open>The loop of lines 139-171 over the detections of the model.\<close>

fun collect_boxes :: "world \<Rightarrow> Image \<Rightarrow> bool \<Rightarrow> Detection list \<Rightarrow> BoundingBox list" where
  "collect_boxes env img windows_only [] = []"
| "collect_boxes env img windows_only (d # ds) =
     (if windows_only
      then (if window_like env img d
            then \<lparr> box_x = det_x d, box_y = det_y d, box_width = det_width d,
                   box_height = det_height d, box_label = Some ''window'' \<rparr>
                 # collect_boxes env img windows_only ds
            else collect_boxes env img windows_only ds)
      else \<lparr> box_x = det_x d, box_y = det_y d, box_width = det_width d,
             box_height = det_height d, box_label = Some (det_label d) \<rparr>
           # collect_boxes env img windows_only ds)"

text \<open>
  The \<open>try\<close> block of \<open>detect_objects\<close> (lines 130-180), the model-based detector: an
  \<open>ImportError\<close>, of the import of line 131 or raised later in the block, becomes the
  HTTP error 400, any other exception the HTTP error 500.
\<close>

definition model_based :: "world \<Rightarrow> Image \<Rightarrow> real \<Rightarrow> bool \<Rightarrow> exn + BoundingBox list" where
  "model_based env img confidence windows_only =
     (if \<not> yolo_importable env
      then Inl (HTTPException 400 ''YOLO not installed. Install with: pip install ultralytics'')
      else (case yolo_run env img confidence of
              Inl ImportError \<Rightarrow>
                Inl (HTTPException 400
                       ''YOLO not installed. Install with: pip install ultralytics'')
            | Inl (Raised e) \<Rightarrow> Inl (HTTPException 500 (''Object detection failed: '' @ e))
            | Inr detections \<Rightarrow> Inr (collect_boxes env img windows_only detections)))"

definition detect_objects :: "world \<Rightarrow> Image \<Rightarrow> real \<Rightarrow> bool \<Rightarrow> exn + BoundingBox list" where
  "detect_objects env img confidence windows_only =
     (if windows_only
      then (let found = detect_windows_advanced env img confidence
            in if found \<noteq> [] then Inr found
               else model_based env img confidence windows_only)
      else model_based env img confidence windows_only)"

section \<open>Download: \<open>download_image\<close>\<close>

text \<open>Every exception of the download is turned into the HTTP error 400 (lines 99-100).\<close>

definition download_image :: "world \<Rightarrow> string \<Rightarrow> exn + Image" where
  "download_image env url =
     (case fetch env url of
        Inl e \<Rightarrow> Inl (HTTPException 400 (''Failed to download image: '' @ e))
      | Inr img \<Rightarrow> Inr img)"

section \<open>Strings\<close>

text \<open>
  Python's \<open>str\<close> of a non-negative integer, the format \<open>03d\<close> (zero-padded to at least
  three digits), \<open>str.lower\<close>, \<open>str.isalnum\<close> and the substring test \<open>in\<close>. A text is
  a sequence of code points below 256 (ASCII and Latin-1), one \<open>char\<close> per code point;
  \<open>lower_char\<close> and \<open>isalnum\<close> are Python's \<open>str.lower\<close> and \<open>str.isalnum\<close> on these code
  points, the accented letters, the superscripts and the fractions of Latin-1 included.
\<close>

definition digit_char :: "nat \<Rightarrow> char" where
  "digit_char d = ''0123456789'' ! d"

fun str_nat :: "nat \<Rightarrow> string" where
  "str_nat n = (if n < 10 then [digit_char n] else str_nat (n div 10) @ [digit_char (n mod 10)])"

declare str_nat.simps [simp del]

definition fmt_03d :: "nat \<Rightarrow> string" where
  "fmt_03d n = replicate (3 - length (str_nat n)) (CHR ''0'') @ str_nat n"

definition lower_char :: "char \<Rightarrow> char" where
  "lower_char c = (let n = (of_char c :: nat)
                   in if (65 \<le> n \<and> n \<le> 90) \<or> (192 \<le> n \<and> n \<le> 214) \<or> (216 \<le> n \<and> n \<le> 222)
                      then char_of (n + 32) else c)"

definition lower :: "string \<Rightarrow> string" where
  "lower s = map lower_char s"

definition isalnum :: "char \<Rightarrow> bool" where
  "isalnum c = (let n = (of_char c :: nat)
                in (48 \<le> n \<and> n \<le> 57) \<or> (65 \<le> n \<and> n \<le> 90) \<or> (97 \<le> n \<and> n \<le> 122) \<or>
                   n = 170 \<or> (178 \<le> n \<and> n \<le> 179) \<or> n = 181 \<or> (185 \<le> n \<and> n \<le> 186) \<or>
                   (188 \<le> n \<and> n \<le> 190) \<or> (192 \<le> n \<and> n \<le> 214) \<or>
                   (216 \<le> n \<and> n \<le> 246) \<or> (248 \<le> n \<and> n \<le> 255))"

fun contains :: "string \<Rightarrow> string \<Rightarrow> bool" where
  "contains sub [] = (sub = [])"
| "contains sub (c # cs) = (prefix sub (c # cs) \<or> contains sub cs)"

text \<open>\<open>str(directory / name)\<close> of \<open>pathlib\<close> for a relative \<open>name\<close>.\<close>

definition path_join :: "string \<Rightarrow> string \<Rightarrow> string" where
  "path_join directory name =
     (if directory \<noteq> [] \<and> last directory = CHR ''/'' then directory @ name
      else directory @ ''/'' @ name)"

text \<open>\<open>str(e)\<close> of a caught exception.\<close>

definition str_exn :: "world \<Rightarrow> exn \<Rightarrow> string" where
  "str_exn env e = (case e of HTTPException code detail \<Rightarrow> str_http env code detail
                           | OtherException s \<Rightarrow> s)"

section \<open>One image: \<open>process_single_image\<close>\<close>

text \<open>
  One entry of \<open>saved_files\<close> (lines 419-436). \<open>sf_dimensions\<close> is the pair
  \<open>(width, height)\<close> of the cropped image, \<open>sf_bbox\<close> the quadruple
  \<open>(x, y, width, height)\<close> stored under the key \<open>bbox\<close>.
\<close>

record saved_file =
  sf_url :: string
  sf_path :: string
  sf_filename :: string
  sf_label :: string
  sf_source_image :: string
  sf_image_index :: nat
  sf_dimensions :: "int \<times> int"
  sf_bbox :: "int \<times> int \<times> int \<times> int"

text \<open>
  The body of the loop of lines 381-438 for the box at position \<open>idx\<close>: the new value
  of \<open>window_count\<close> and either the error text appended to \<open>errors\<close> or the entry
  appended to \<open>saved_files\<close>. The handler of line 437 catches every \<open>Exception\<close>, the
  \<open>HTTPException\<close> of \<open>crop_bounding_box\<close> included. The local backup of lines 409-417
  changes only the file system and swallows its failures.
\<close>

definition crop_one ::
  "world \<Rightarrow> Image \<Rightarrow> CropRequest \<Rightarrow> string \<Rightarrow> string \<Rightarrow> nat \<Rightarrow> nat \<Rightarrow> nat \<Rightarrow> BoundingBox
     \<Rightarrow> nat \<times> (string + saved_file)" where
  "crop_one env img request url job_dir image_index idx window_count bbox =
     (let failed = (\<lambda>e. ''Failed to crop box '' @ str_nat (idx + 1) @ '' from image ''
                          @ str_nat (image_index + 1) @ '': '' @ e)
      in case crop_bounding_box env img bbox of
           Inl e \<Rightarrow> (window_count, Inl (failed (str_exn env e)))
         | Inr cropped \<Rightarrow>
            (let label0 = (case box_label bbox of
                             None \<Rightarrow> ''crop_'' @ str_nat (idx + 1)
                           | Some l \<Rightarrow> if l = [] then ''crop_'' @ str_nat (idx + 1) else l);
                 renamed = (contains ''window'' (lower label0) \<or> detect_windows_only request);
                 window_count' = (if renamed then window_count + 1 else window_count);
                 label = (if renamed then ''window_'' @ str_nat window_count' else label0);
                 safe_label = map (\<lambda>c. if isalnum c \<or> c = CHR ''-'' \<or> c = CHR ''_''
                                         then c else CHR ''_'') label;
                 filename = (if image_index > 0
                             then ''img'' @ str_nat (image_index + 1) @ ''_'' @ fmt_03d (idx + 1)
                                  @ ''_'' @ safe_label @ ''.jpg''
                             else fmt_03d (idx + 1) @ ''_'' @ safe_label @ ''.jpg'');
                 out_path = path_join job_dir filename
             in case jpeg_save env cropped of
                  Inl e \<Rightarrow> (window_count', Inl (failed e))
                | Inr img_bytes \<Rightarrow>
                   (window_count',
                    Inr \<lparr> sf_url = upload env img_bytes filename,
                          sf_path = out_path,
                          sf_filename = filename,
                          sf_label = label,
                          sf_source_image = url,
                          sf_image_index = image_index + 1,
                          sf_dimensions = (img_width cropped, img_height cropped),
                          sf_bbox = (box_x bbox, box_y bbox, box_width bbox, box_height bbox) \<rparr>)))"

text \<open>The loop itself, with \<open>saved_files\<close> and \<open>errors\<close> as the state it extends.\<close>

fun crop_boxes ::
  "world \<Rightarrow> Image \<Rightarrow> CropRequest \<Rightarrow> string \<Rightarrow> string \<Rightarrow> nat \<Rightarrow> nat \<Rightarrow> nat
     \<Rightarrow> saved_file list \<Rightarrow> string list \<Rightarrow> BoundingBox list \<Rightarrow> saved_file list \<times> string list" where
  "crop_boxes env img request url job_dir image_index idx window_count saved_files errors [] =
     (saved_files, errors)"
| "crop_boxes env img request url job_dir image_index idx window_count saved_files errors
       (bbox # rest) =
     (case crop_one env img request url job_dir image_index idx window_count bbox of
        (window_count', Inl err) \<Rightarrow>
          crop_boxes env img request url job_dir image_index (idx + 1) window_count'
            saved_files (errors @ [err]) rest
      | (window_count', Inr entry) \<Rightarrow>
          crop_boxes env img request url job_dir image_index (idx + 1) window_count'
            (saved_files @ [entry]) errors rest)"

text \<open>
  Lines 375-440: the test \<open>if not bounding_boxes\<close> (\<open>None\<close> and the empty list are both
  false values) and the loop over the boxes.
\<close>

definition crop_stage ::
  "world \<Rightarrow> Image \<Rightarrow> CropRequest \<Rightarrow> string \<Rightarrow> string \<Rightarrow> nat \<Rightarrow> string list
     \<Rightarrow> BoundingBox list option \<Rightarrow> saved_file list \<times> string list" where
  "crop_stage env img request url job_dir image_index errors boxes =
     (case boxes of
        None \<Rightarrow> ([], errors @ [''No bounding boxes provided for image ''
                     @ str_nat (image_index + 1) @ '' and detection not enabled''])
      | Some [] \<Rightarrow> ([], errors @ [''No bounding boxes provided for image ''
                     @ str_nat (image_index + 1) @ '' and detection not enabled''])
      | Some (b # bs) \<Rightarrow>
          crop_boxes env img request url job_dir image_index 0 0 [] errors (b # bs))"

text \<open>
  \<open>process_single_image\<close> with its two callees as parameters: \<open>download\<close> for
  \<open>download_image\<close> and \<open>detect\<close> for \<open>detect_objects\<close>. Each call has three outcomes,
  as the handlers of lines 346-352 and 358-373 distinguish them: a value, an
  \<open>HTTPException\<close> (re-raised) and any other exception (recorded).
\<close>

definition process_single_image_with ::
  "(string \<Rightarrow> exn + Image) \<Rightarrow> (Image \<Rightarrow> real \<Rightarrow> bool \<Rightarrow> exn + BoundingBox list)
     \<Rightarrow> world \<Rightarrow> string \<Rightarrow> CropRequest \<Rightarrow> string \<Rightarrow> nat
     \<Rightarrow> exn + (saved_file list \<times> string list)" where
  "process_single_image_with download detect env url request job_dir image_index =
     (case download url of
        Inl (HTTPException code detail) \<Rightarrow> Inl (HTTPException code detail)
      | Inl (OtherException e) \<Rightarrow>
          Inr ([], [''Failed to download image '' @ str_nat (image_index + 1)
                    @ '' ('' @ url @ ''): '' @ e])
      | Inr img \<Rightarrow>
          (if use_detection request
           then (case detect img (confidence_threshold request) (detect_windows_only request) of
                   Inr detected \<Rightarrow>
                     (if detected = []
                      then Inr ([], [''No objects detected in image '' @ str_nat (image_index + 1)
                                     @ (if detect_windows_only request
                                        then '' (no windows found)'' else [])])
                      else Inr (crop_stage env img request url job_dir image_index []
                                  (Some detected)))
                 | Inl (HTTPException code detail) \<Rightarrow> Inl (HTTPException code detail)
                 | Inl (OtherException e) \<Rightarrow>
                     (let errors = [''Detection failed for image '' @ str_nat (image_index + 1)
                                    @ '': '' @ e]
                      in if bounding_boxes request = None \<or> bounding_boxes request = Some []
                         then Inr ([], errors)
                         else Inr (crop_stage env img request url job_dir image_index errors
                                     (bounding_boxes request))))
           else Inr (crop_stage env img request url job_dir image_index []
                       (bounding_boxes request))))"

definition process_single_image ::
  "world \<Rightarrow> string \<Rightarrow> CropRequest \<Rightarrow> string \<Rightarrow> nat \<Rightarrow> exn + (saved_file list \<times> string list)" where
  "process_single_image env url request job_dir image_index =
     process_single_image_with (download_image env) (detect_objects env)
       env url request job_dir image_index"

section \<open>The job: \<open>crop_image\<close>\<close>

text \<open>\<open>CropRequest.get_image_urls\<close>; \<open>Inl\<close> is the message of the \<open>ValueError\<close>.\<close>

definition get_image_urls :: "CropRequest \<Rightarrow> string + string list" where
  "get_image_urls request =
     (case image_urls request of
        Some (u # us) \<Rightarrow> Inr (u # us)
      | _ \<Rightarrow> (case image_url request of
                Some u \<Rightarrow> Inr [u]
              | None \<Rightarrow> Inl ''Either image_url or image_urls must be provided''))"

text \<open>The content of the \<open>JSONResponse\<close> of lines 485-493.\<close>

record JobReport =
  rep_status :: string
  rep_job_id :: string
  rep_output_dir :: string
  rep_images_processed :: nat
  rep_saved_count :: nat
  rep_saved_files :: "saved_file list"
  rep_errors :: "string list"

text \<open>
  The loop of lines 475-483 over \<open>enumerate(image_urls)\<close>, with \<open>all_saved_files\<close> and
  \<open>all_errors\<close> as its state. An \<open>HTTPException\<close> leaves the loop and the request.
\<close>

fun process_images ::
  "world \<Rightarrow> CropRequest \<Rightarrow> string \<Rightarrow> nat \<Rightarrow> saved_file list \<Rightarrow> string list \<Rightarrow> string list
     \<Rightarrow> exn + (saved_file list \<times> string list)" where
  "process_images env request job_dir idx all_saved_files all_errors [] =
     Inr (all_saved_files, all_errors)"
| "process_images env request job_dir idx all_saved_files all_errors (url # rest) =
     (case process_single_image env url request job_dir idx of
        Inr (saved_files, errors) \<Rightarrow>
          process_images env request job_dir (idx + 1)
            (all_saved_files @ saved_files) (all_errors @ errors) rest
      | Inl (HTTPException code detail) \<Rightarrow> Inl (HTTPException code detail)
      | Inl (OtherException e) \<Rightarrow>
          process_images env request job_dir (idx + 1) all_saved_files
            (all_errors @ [''Failed to process image '' @ str_nat (idx + 1)
                           @ '' ('' @ url @ ''): '' @ e]) rest)"

text \<open>
  \<open>crop_image\<close>: \<open>Inl\<close> is the exception that ends the request, \<open>Inr\<close> the report. The
  clearing of the output directory (lines 454-464) swallows its failures and touches only
  the file system; the creation of the job directory is taken to succeed.
\<close>

definition crop_image :: "world \<Rightarrow> CropRequest \<Rightarrow> exn + JobReport" where
  "crop_image env request =
     (case get_image_urls request of
        Inl msg \<Rightarrow> Inl (HTTPException 400 msg)
      | Inr urls \<Rightarrow>
          (let job_id = uuid_hex env;
               ts = utc_now env;
               job_dir = path_join (OUTPUT_DIR env) (ts @ ''_'' @ job_id)
           in case process_images env request job_dir 0 [] [] urls of
                Inl e \<Rightarrow> Inl e
              | Inr (all_saved_files, all_errors) \<Rightarrow>
                  Inr \<lparr> rep_status = ''success'',
                        rep_job_id = job_id,
                        rep_output_dir = job_dir,
                        rep_images_processed = length urls,
                        rep_saved_count = length all_saved_files,
                        rep_saved_files = all_saved_files,
                        rep_errors = all_errors \<rparr>))"

section \<open>Auxiliary notions and concrete inputs\<close>

text \<open>The quadruple \<open>(x, y, width, height)\<close> of a box.\<close>

definition rect_of :: "BoundingBox \<Rightarrow> int \<times> int \<times> int \<times> int" where
  "rect_of b = (box_x b, box_y b, box_width b, box_height b)"

text \<open>
  A box is stored when \<open>crop_bounding_box\<close> accepts it and the JPEG encoding of the crop
  succeeds: the two places of the loop body that can raise.
\<close>

definition stored :: "world \<Rightarrow> Image \<Rightarrow> BoundingBox \<Rightarrow> bool" where
  "stored env img bbox =
     (case crop_bounding_box env img bbox of
        Inl e \<Rightarrow> False
      | Inr cropped \<Rightarrow> (case jpeg_save env cropped of Inl e \<Rightarrow> False | Inr img_bytes \<Rightarrow> True))"

text \<open>
  An error text is download-tagged when it has the form of line 351,
  \<open>Failed to download image <position> ...\<close>.
\<close>

definition download_tagged :: "string \<Rightarrow> bool" where
  "download_tagged s = prefix ''Failed to download image '' s"

text \<open>
  A world for the examples: the URLs \<open>A\<close> and \<open>B\<close> lead to 100 by 100 images, every
  other download times out; neither OpenCV nor the YOLO library is installed. Its float
  operations are the exact ones, which agree with the float operations wherever the
  exact result is a float; the examples divide and multiply only there.
\<close>

definition world0 :: world where
  "world0 =
     \<lparr> fetch = (\<lambda>u. if u = ''A'' \<or> u = ''B'' then Inr (blank 100 100) else Inl ''timed out''),
       cv2_candidates = (\<lambda>img conf. None),
       yolo_importable = False,
       yolo_run = (\<lambda>img conf. Inr []),
       float_div = (\<lambda>a b. real_of_int a / real_of_int b),
       float_mul = (\<lambda>n x. real_of_int n * x),
       jpeg_save = (\<lambda>img. Inr []),
       upload = (\<lambda>img_bytes filename. ''data:image/jpeg;base64,''),
       str_box = (\<lambda>b. ''box''),
       str_http = (\<lambda>code detail. detail),
       uuid_hex = ''0f'',
       utc_now = ''20240101_000000'',
       OUTPUT_DIR = ''/srv/cropped_images'' \<rparr>"

definition request0 :: CropRequest where
  "request0 =
     \<lparr> image_url = None, image_urls = None, bounding_boxes = None, use_detection = False,
       detect_windows_only = False, confidence_threshold = 5 / 10, clear_previous = True \<rparr>"

text \<open>A world in which OpenCV finds one window candidate in every image.\<close>

definition world_cv :: world where
  "world_cv = world0\<lparr> cv2_candidates := (\<lambda>img conf. Some [mk_box 10 10 40 40]) \<rparr>"

text \<open>A world in which the YOLO model is installed and reports one object.\<close>

definition world_yolo :: world where
  "world_yolo = world0\<lparr> yolo_importable := True,
     yolo_run := (\<lambda>img conf. Inr [\<lparr> det_x = 20, det_y = 20, det_width = 30, det_height = 30,
                                    det_label = ''cat'' \<rparr>]) \<rparr>"


section \<open>Properties of the geometry\<close>

lemma clamp_fields:
  "box_x (clamp img bbox) = max 0 (box_x bbox)"
  "box_y (clamp img bbox) = max 0 (box_y bbox)"
  "box_width (clamp img bbox) = min (box_width bbox) (img_width img - max 0 (box_x bbox))"
  "box_height (clamp img bbox) = min (box_height bbox) (img_height img - max 0 (box_y bbox))"
  by (simp_all add: clamp_def Let_def)

lemma crop_bounding_box_eq:
  "crop_bounding_box env img bbox =
     (if box_width (clamp img bbox) \<le> 0 \<or> box_height (clamp img bbox) \<le> 0
      then Inl (HTTPException 400 (''Invalid bounding box: '' @ str_box env bbox))
      else Inr (crop img (box_x (clamp img bbox), box_y (clamp img bbox),
                  box_x (clamp img bbox) + box_width (clamp img bbox),
                  box_y (clamp img bbox) + box_height (clamp img bbox))))"
  by (simp add: crop_bounding_box_def clamp_fields Let_def)

lemma clamp_spec_eq:
  "clamp_spec bbox (img_width img) (img_height img) =
     (if box_width (clamp img bbox) \<le> 0 \<or> box_height (clamp img bbox) \<le> 0
      then None else Some (clamp img bbox))"
  by (simp add: clamp_spec_def clamp_def Let_def)

lemma crop_size:
  "img_width (crop img (l, u, l + w, u + h)) = w"
  "img_height (crop img (l, u, l + w, u + h)) = h"
  by (simp_all add: crop_def)

lemma crop_pixel:
  "0 \<le> l + i \<Longrightarrow> l + i < img_width img \<Longrightarrow> 0 \<le> u + j \<Longrightarrow> u + j < img_height img \<Longrightarrow>
     img_pixel (crop img (l, u, r, d)) i j = img_pixel img (l + i) (u + j)"
  by (simp add: crop_def)

lemma clamp_pixel:
  assumes "0 \<le> i" "i < box_width (clamp img bbox)" "0 \<le> j" "j < box_height (clamp img bbox)"
  shows "img_pixel (crop img (box_x (clamp img bbox), box_y (clamp img bbox),
            box_x (clamp img bbox) + box_width (clamp img bbox),
            box_y (clamp img bbox) + box_height (clamp img bbox))) i j
         = img_pixel img (box_x (clamp img bbox) + i) (box_y (clamp img bbox) + j)"
proof (rule crop_pixel)
  show "0 \<le> box_x (clamp img bbox) + i" using assms by (simp add: clamp_fields)
  show "box_x (clamp img bbox) + i < img_width img" using assms by (simp add: clamp_fields)
  show "0 \<le> box_y (clamp img bbox) + j" using assms by (simp add: clamp_fields)
  show "box_y (clamp img bbox) + j < img_height img" using assms by (simp add: clamp_fields)
qed

text \<open>
  Claim C8. For every box and image the clamp recomputes \<open>x = max(0, x)\<close>,
  \<open>y = max(0, y)\<close>, \<open>width = min(width, image_width - x)\<close> and
  \<open>height = min(height, image_height - y)\<close> with the new \<open>x\<close> and \<open>y\<close>;
  \<open>crop_bounding_box\<close> fails exactly when the resulting width or height is at most 0,
  which is exactly when the clamp of the specification rejects; otherwise it returns the
  crop at the clamped rectangle: an image of the clamped width and height whose pixels
  are the pixels of the source at the clamped position.
\<close>

theorem crop_bounding_box_clamps:
  "box_x (clamp img bbox) = max 0 (box_x bbox) \<and>
   box_y (clamp img bbox) = max 0 (box_y bbox) \<and>
   box_width (clamp img bbox) = min (box_width bbox) (img_width img - box_x (clamp img bbox)) \<and>
   box_height (clamp img bbox) = min (box_height bbox) (img_height img - box_y (clamp img bbox)) \<and>
   ((\<exists>e. crop_bounding_box env img bbox = Inl e) \<longleftrightarrow>
      (box_width (clamp img bbox) \<le> 0 \<or> box_height (clamp img bbox) \<le> 0)) \<and>
   (clamp_spec bbox (img_width img) (img_height img) = None \<longleftrightarrow>
      (\<exists>e. crop_bounding_box env img bbox = Inl e)) \<and>
   (\<forall>c. clamp_spec bbox (img_width img) (img_height img) = Some c \<longrightarrow>
      c = clamp img bbox \<and>
      crop_bounding_box env img bbox =
        Inr (crop img (box_x c, box_y c, box_x c + box_width c, box_y c + box_height c)) \<and>
      img_width (crop img (box_x c, box_y c, box_x c + box_width c, box_y c + box_height c))
        = box_width c \<and>
      img_height (crop img (box_x c, box_y c, box_x c + box_width c, box_y c + box_height c))
        = box_height c \<and>
      (\<forall>i j. 0 \<le> i \<and> i < box_width c \<and> 0 \<le> j \<and> j < box_height c \<longrightarrow>
         img_pixel (crop img (box_x c, box_y c, box_x c + box_width c, box_y c + box_height c)) i j
           = img_pixel img (box_x c + i) (box_y c + j)))"
proof (intro conjI allI impI)
  fix c
  assume c: "clamp_spec bbox (img_width img) (img_height img) = Some c"
  then have ok: "\<not> (box_width (clamp img bbox) \<le> 0 \<or> box_height (clamp img bbox) \<le> 0)"
    and eq: "c = clamp img bbox"
    by (simp_all add: clamp_spec_eq split: if_splits)
  show "c = clamp img bbox" by (rule eq)
  show "crop_bounding_box env img bbox =
        Inr (crop img (box_x c, box_y c, box_x c + box_width c, box_y c + box_height c))"
    using ok by (simp add: crop_bounding_box_eq eq)
  show "img_width (crop img (box_x c, box_y c, box_x c + box_width c, box_y c + box_height c))
        = box_width c"
    by (rule crop_size)
  show "img_height (crop img (box_x c, box_y c, box_x c + box_width c, box_y c + box_height c))
        = box_height c"
    by (rule crop_size)
  fix i j
  assume "0 \<le> i \<and> i < box_width c \<and> 0 \<le> j \<and> j < box_height c"
  then show "img_pixel (crop img (box_x c, box_y c, box_x c + box_width c, box_y c + box_height c)) i j
           = img_pixel img (box_x c + i) (box_y c + j)"
    unfolding eq by (intro clamp_pixel) simp_all
qed (simp_all add: clamp_fields crop_bounding_box_eq clamp_spec_eq)

theorem crop_bounding_box_clamps_witness:
  "clamp_spec (mk_box 90 (- 5) 20 20) (img_width (blank 100 100)) (img_height (blank 100 100))
     = Some (mk_box 90 0 10 20) \<and>
   crop_bounding_box world0 (blank 100 100) (mk_box 90 (- 5) 20 20)
     = Inr (crop (blank 100 100) (90, 0, 100, 20)) \<and>
   clamp_spec (mk_box 100 0 20 20) (img_width (blank 100 100)) (img_height (blank 100 100)) = None \<and>
   (\<exists>e. crop_bounding_box world0 (blank 100 100) (mk_box 100 0 20 20) = Inl e)"
proof -
  have h: "clamp_spec (mk_box 90 (- 5) 20 20) (img_width (blank 100 100)) (img_height (blank 100 100))
     = Some (mk_box 90 0 10 20)"
    by (simp add: clamp_spec_def mk_box_def blank_def)
  have n: "clamp_spec (mk_box 100 0 20 20) (img_width (blank 100 100)) (img_height (blank 100 100)) = None"
    by (simp add: clamp_spec_def mk_box_def blank_def)
  from crop_bounding_box_clamps [where img = "blank 100 100"
      and bbox = "mk_box 90 (- 5) 20 20" and env = world0] h
  have "crop_bounding_box world0 (blank 100 100) (mk_box 90 (- 5) 20 20)
     = Inr (crop (blank 100 100) (90, 0, 100, 20))"
    by (simp add: mk_box_def)
  moreover from crop_bounding_box_clamps [where img = "blank 100 100"
      and bbox = "mk_box 100 0 20 20" and env = world0] n
  have "\<exists>e. crop_bounding_box world0 (blank 100 100) (mk_box 100 0 20 20) = Inl e"
    by blast
  ultimately show ?thesis using h n by simp
qed

text \<open>
  Claim C9. Clamping is idempotent: whenever \<open>crop_bounding_box\<close> succeeds on a box,
  clamping the clamped box again gives the identical box, and cropping with the clamped
  box gives the identical crop.
\<close>

theorem clamp_idempotent:
  "crop_bounding_box env img bbox = Inr cropped \<Longrightarrow>
     clamp img (clamp img bbox) = clamp img bbox \<and>
     crop_bounding_box env img (clamp img bbox) = Inr cropped"
  by (auto simp: clamp_def crop_bounding_box_def Let_def split: if_splits)

theorem clamp_idempotent_witness:
  "crop_bounding_box world0 (blank 100 100) (mk_box (- 5) 95 20 20)
     = Inr (crop (blank 100 100) (0, 95, 20, 100)) \<and>
   clamp (blank 100 100) (mk_box 0 95 20 5) = mk_box 0 95 20 5 \<and>
   crop_bounding_box world0 (blank 100 100) (mk_box 0 95 20 5)
     = Inr (crop (blank 100 100) (0, 95, 20, 100))"
proof -
  have h: "crop_bounding_box world0 (blank 100 100) (mk_box (- 5) 95 20 20)
     = Inr (crop (blank 100 100) (0, 95, 20, 100))"
    by (simp add: crop_bounding_box_def mk_box_def blank_def)
  have c: "clamp (blank 100 100) (mk_box (- 5) 95 20 20) = mk_box 0 95 20 5"
    by (simp add: clamp_def mk_box_def blank_def)
  show ?thesis using h clamp_idempotent [OF h] by (simp add: c)
qed

text \<open>
  Claim C4, as stated: clamping the box \<open>{x:-5, y:-5, width:20, height:20}\<close> against a
  100 by 100 image yields \<open>{x:0, y:0, width:15, height:15}\<close>. The code does not: moving
  \<open>x\<close> and \<open>y\<close> to 0 leaves the width and height untouched, since 20 is at most 100 - 0.
\<close>

theorem clamp_scenario_counterexample:
  "clamp (blank 100 100) (mk_box (- 5) (- 5) 20 20) \<noteq> mk_box 0 0 15 15"
  by (simp add: clamp_def mk_box_def blank_def)

text \<open>
  Claim C4, amended: clamping the box \<open>{x:-5, y:-5, width:20, height:20}\<close> against a
  100 by 100 image yields \<open>{x:0, y:0, width:20, height:20}\<close>, and the crop is taken at
  that rectangle.
\<close>

theorem clamp_scenario:
  "clamp (blank 100 100) (mk_box (- 5) (- 5) 20 20) = mk_box 0 0 20 20 \<and>
   crop_bounding_box env (blank 100 100) (mk_box (- 5) (- 5) 20 20)
     = Inr (crop (blank 100 100) (0, 0, 20, 20))"
  by (simp add: clamp_def crop_bounding_box_def mk_box_def blank_def)

section \<open>Properties of the detection policy\<close>

lemma overlaps_yolo:
  "overlaps (env\<lparr> yolo_importable := avail, yolo_run := run \<rparr>) t a = overlaps env t a"
  by (simp add: overlaps_def fun_eq_iff)

lemma suppress_yolo:
  "suppress (env\<lparr> yolo_importable := avail, yolo_run := run \<rparr>) t acc bs = suppress env t acc bs"
  by (induction bs arbitrary: acc) (simp_all add: overlaps_yolo)

lemma detect_windows_advanced_yolo:
  "detect_windows_advanced (env\<lparr> yolo_importable := avail, yolo_run := run \<rparr>) img conf
     = detect_windows_advanced env img conf"
  by (simp add: detect_windows_advanced_def remove_overlapping_boxes_def suppress_yolo
      split: option.splits)

text \<open>
  Claim C6. In windows-only mode the primitive detector runs first. If it returns one or
  more boxes, they are the result whatever the model library would do (importable or
  not, returning or raising): the model-based detector plays no part. If it returns no
  box, the result is that of the model-based detector with the window filter enabled.
\<close>

theorem detect_objects_windows_only:
  "(detect_windows_advanced env img conf \<noteq> [] \<longrightarrow>
      detect_objects (env\<lparr> yolo_importable := avail, yolo_run := run \<rparr>) img conf True
        = Inr (detect_windows_advanced env img conf)) \<and>
   (detect_windows_advanced env img conf = [] \<longrightarrow>
      detect_objects env img conf True = model_based env img conf True)"
  by (simp add: detect_objects_def detect_windows_advanced_yolo)

theorem detect_objects_windows_only_witness:
  "detect_windows_advanced world_cv (blank 64 64) (5 / 10) \<noteq> [] \<and>
   detect_objects (world_cv\<lparr> yolo_importable := False, yolo_run := (\<lambda>img conf. Inl (Raised ''crash'')) \<rparr>)
       (blank 64 64) (5 / 10) True = Inr [mk_box 10 10 40 40] \<and>
   detect_windows_advanced world_yolo (blank 64 64) (5 / 10) = [] \<and>
   detect_objects world_yolo (blank 64 64) (5 / 10) True
     = Inr [\<lparr> box_x = 20, box_y = 20, box_width = 30, box_height = 30, box_label = Some ''window'' \<rparr>]"
proof -
  have a: "detect_windows_advanced world_cv (blank 64 64) (5 / 10) = [mk_box 10 10 40 40]"
    by (simp add: detect_windows_advanced_def world_cv_def world0_def
        remove_overlapping_boxes_def mk_box_def)
  have b: "detect_windows_advanced world_yolo (blank 64 64) (5 / 10) = []"
    by (simp add: detect_windows_advanced_def world_yolo_def world0_def)
  have m: "model_based world_yolo (blank 64 64) (5 / 10) True
     = Inr [\<lparr> box_x = 20, box_y = 20, box_width = 30, box_height = 30, box_label = Some ''window'' \<rparr>]"
    by (simp add: model_based_def world_yolo_def world0_def window_like_def blank_def
        float_0_3_def float_0_005_def float_0_9_def)
  from detect_objects_windows_only [where env = world_cv and img = "blank 64 64"
      and conf = "5 / 10" and avail = False and run = "\<lambda>img conf. Inl (Raised ''crash'')"] a
  have 1: "detect_objects (world_cv\<lparr> yolo_importable := False, yolo_run := (\<lambda>img conf. Inl (Raised ''crash'')) \<rparr>)
       (blank 64 64) (5 / 10) True = Inr [mk_box 10 10 40 40]"
    by simp
  from detect_objects_windows_only [where env = world_yolo and img = "blank 64 64"
      and conf = "5 / 10"] b m
  have 2: "detect_objects world_yolo (blank 64 64) (5 / 10) True
     = Inr [\<lparr> box_x = 20, box_y = 20, box_width = 30, box_height = 30, box_label = Some ''window'' \<rparr>]"
    by simp
  show ?thesis using a b 1 2 by simp
qed

section \<open>Properties of the overlap suppression\<close>

lemma suppress_kept_apart:
  "sorted_wrt (\<lambda>a b. \<not> overlaps env t b a) acc \<Longrightarrow>
     sorted_wrt (\<lambda>a b. \<not> overlaps env t b a) (suppress env t acc bs)"
  by (induction bs arbitrary: acc) (auto simp: sorted_wrt_append list_ex_iff)

lemma suppress_fixed:
  "sorted_wrt (\<lambda>a b. \<not> overlaps env t b a) (acc @ bs) \<Longrightarrow> suppress env t acc bs = acc @ bs"
proof (induction bs arbitrary: acc)
  case Nil
  then show ?case by simp
next
  case (Cons b bs)
  from Cons.prems have no: "\<not> list_ex (overlaps env t b) acc"
    by (auto simp: sorted_wrt_append list_ex_iff)
  from Cons.prems have "sorted_wrt (\<lambda>a b. \<not> overlaps env t b a) ((acc @ [b]) @ bs)"
    by simp
  then have "suppress env t (acc @ [b]) bs = (acc @ [b]) @ bs"
    by (rule Cons.IH)
  with no show ?case by simp
qed

lemma suppress_sorted:
  "sorted (map f (acc @ bs)) \<Longrightarrow> sorted (map f (suppress env t acc bs))"
proof (induction bs arbitrary: acc)
  case Nil
  then show ?case by simp
next
  case (Cons b bs)
  have 1: "sorted (map f ((acc @ [b]) @ bs))" using Cons.prems by simp
  have 2: "sorted (map f (acc @ bs))" using Cons.prems by (auto simp: sorted_append)
  show ?case using Cons.IH[OF 1] Cons.IH[OF 2] by simp
qed

lemma suppress_subset: "set (suppress env t acc bs) \<subseteq> set acc \<union> set bs"
proof (induction bs arbitrary: acc)
  case Nil
  then show ?case by simp
next
  case (Cons b bs)
  have "set (suppress env t (acc @ [b]) bs) \<subseteq> set (acc @ [b]) \<union> set bs"
    by (rule Cons.IH)
  moreover have "set (suppress env t acc bs) \<subseteq> set acc \<union> set bs"
    by (rule Cons.IH)
  ultimately show ?case by (auto simp: Let_def)
qed

lemma insort_key_map:
  "insort_key g (h x) (map h ys) = map h (insort_key (\<lambda>y. g (h y)) x ys)"
  by (induction ys) auto

lemma sort_key_map: "sort_key g (map h xs) = map h (sort_key (\<lambda>y. g (h y)) xs)"
  by (induction xs) (auto simp: insort_key_map)

lemma remove_overlapping_boxes_eq:
  "remove_overlapping_boxes env boxes t =
     suppress env t [] (sort_key (\<lambda>b. - (box_width b * box_height b)) boxes)"
  by (simp add: remove_overlapping_boxes_def sort_key_map comp_def)

lemma iou_le_if_not_overlaps:
  "0 \<le> t \<Longrightarrow> \<not> overlaps env t b a \<Longrightarrow> intersectionOverUnion env a b \<le> t"
  by (auto simp: overlaps_def intersectionOverUnion_def Let_def max.commute min.commute
      add.commute split: if_splits)

lemma overlaps_sym: "overlaps env t a b = overlaps env t b a"
  by (simp add: overlaps_def Let_def max.commute min.commute add.commute)

text \<open>
  Claim C7, as stated: for every list of boxes and every threshold, every pair of
  distinct boxes of the output has an intersection over union of at most the threshold.
  The code compares the quotient with the threshold only for rectangles that intersect
  (line 318), so with a negative threshold two disjoint boxes, whose intersection over
  union is 0, are both kept. No division takes place on this input.
\<close>

theorem remove_overlapping_boxes_counterexample:
  "remove_overlapping_boxes world0 [mk_box 0 0 1 1, mk_box 5 5 1 1] (- 1)
     = [mk_box 0 0 1 1, mk_box 5 5 1 1] \<and>
   \<not> intersectionOverUnion world0 (mk_box 0 0 1 1) (mk_box 5 5 1 1) \<le> - 1"
  by (simp add: remove_overlapping_boxes_def mk_box_def overlaps_def intersectionOverUnion_def)

text \<open>
  Claim C7, amended: for every list of boxes and every threshold the output of the
  overlap suppressor is a subset of its input and the suppressor is idempotent (applied
  to its own output it returns the same list); for every threshold that is not negative,
  any two boxes at distinct positions of the output have an intersection over union of
  at most the threshold. The intersection over union is the float the code computes,
  whatever the rounding of the division.
\<close>

theorem remove_overlapping_boxes_properties:
  "set (remove_overlapping_boxes env boxes t) \<subseteq> set boxes \<and>
   remove_overlapping_boxes env (remove_overlapping_boxes env boxes t) t
     = remove_overlapping_boxes env boxes t \<and>
   (0 \<le> t \<longrightarrow>
      (\<forall>i j. i < length (remove_overlapping_boxes env boxes t) \<and>
             j < length (remove_overlapping_boxes env boxes t) \<and> i \<noteq> j \<longrightarrow>
         intersectionOverUnion env (remove_overlapping_boxes env boxes t ! i)
           (remove_overlapping_boxes env boxes t ! j) \<le> t))"
proof -
  let ?k = "\<lambda>b. - (box_width b * box_height b)"
  let ?out = "remove_overlapping_boxes env boxes t"
  have out: "?out = suppress env t [] (sort_key ?k boxes)"
    by (rule remove_overlapping_boxes_eq)
  have sub: "set ?out \<subseteq> set boxes"
    using suppress_subset[of env t "[]" "sort_key ?k boxes"] by (simp add: out)
  have srt: "sorted (map ?k ?out)"
    unfolding out by (rule suppress_sorted) simp
  have apart: "sorted_wrt (\<lambda>a b. \<not> overlaps env t b a) ?out"
    unfolding out by (rule suppress_kept_apart) simp
  have "remove_overlapping_boxes env ?out t = suppress env t [] (sort_key ?k ?out)"
    by (rule remove_overlapping_boxes_eq)
  also have "sort_key ?k ?out = ?out"
    using srt by (rule sort_key_id_if_sorted)
  also have "suppress env t [] ?out = ?out"
    using suppress_fixed[of env t "[]" ?out] apart by simp
  finally have idem: "remove_overlapping_boxes env ?out t = ?out" .
  have pair: "intersectionOverUnion env (?out ! i) (?out ! j) \<le> t"
    if "0 \<le> t" "i < length ?out" "j < length ?out" "i \<noteq> j" for i j
  proof (cases "i < j")
    case True
    with apart that have "\<not> overlaps env t (?out ! j) (?out ! i)"
      by (simp add: sorted_wrt_iff_nth_less)
    with that show ?thesis by (simp add: iou_le_if_not_overlaps)
  next
    case False
    with that have "j < i" by simp
    with apart that have "\<not> overlaps env t (?out ! i) (?out ! j)"
      by (simp add: sorted_wrt_iff_nth_less)
    then have "\<not> overlaps env t (?out ! j) (?out ! i)" by (simp add: overlaps_sym)
    with that show ?thesis by (simp add: iou_le_if_not_overlaps)
  qed
  show ?thesis using sub idem pair by blast
qed

text \<open>
  An instance at the default threshold. The only quotients computed are 300/400 and
  100/400, which are floats, so the exact division of \<open>world0\<close> is the float division
  here.
\<close>

theorem remove_overlapping_boxes_properties_witness:
  "(0::real) \<le> 5 / 10 \<and>
   remove_overlapping_boxes world0
     [mk_box 0 0 10 10, mk_box 0 0 20 15, mk_box 0 0 20 20, mk_box 30 30 5 5] (5 / 10)
     = [mk_box 0 0 20 20, mk_box 0 0 10 10, mk_box 30 30 5 5] \<and>
   remove_overlapping_boxes world0
     [mk_box 0 0 20 20, mk_box 0 0 10 10, mk_box 30 30 5 5] (5 / 10)
     = [mk_box 0 0 20 20, mk_box 0 0 10 10, mk_box 30 30 5 5] \<and>
   intersectionOverUnion world0 (mk_box 0 0 20 20) (mk_box 0 0 10 10) \<le> 5 / 10"
proof -
  have h: "(0::real) \<le> 5 / 10" by simp
  have out: "remove_overlapping_boxes world0
     [mk_box 0 0 10 10, mk_box 0 0 20 15, mk_box 0 0 20 20, mk_box 30 30 5 5] (5 / 10)
     = [mk_box 0 0 20 20, mk_box 0 0 10 10, mk_box 30 30 5 5]"
    by (simp add: remove_overlapping_boxes_def mk_box_def overlaps_def world0_def)
  from remove_overlapping_boxes_properties
    [of world0 "[mk_box 0 0 10 10, mk_box 0 0 20 15, mk_box 0 0 20 20, mk_box 30 30 5 5]"
      "5 / 10"]
  have idem: "remove_overlapping_boxes world0
       [mk_box 0 0 20 20, mk_box 0 0 10 10, mk_box 30 30 5 5] (5 / 10)
     = [mk_box 0 0 20 20, mk_box 0 0 10 10, mk_box 30 30 5 5]"
    and pair: "\<forall>i j. i < 3 \<and> j < 3 \<and> i \<noteq> j \<longrightarrow>
       intersectionOverUnion world0
         ([mk_box 0 0 20 20, mk_box 0 0 10 10, mk_box 30 30 5 5] ! i)
         ([mk_box 0 0 20 20, mk_box 0 0 10 10, mk_box 30 30 5 5] ! j) \<le> 5 / 10"
    unfolding out using h by simp_all
  from pair have "(0::nat) < 3 \<and> (1::nat) < 3 \<and> (0::nat) \<noteq> 1 \<longrightarrow>
       intersectionOverUnion world0
         ([mk_box 0 0 20 20, mk_box 0 0 10 10, mk_box 30 30 5 5] ! 0)
         ([mk_box 0 0 20 20, mk_box 0 0 10 10, mk_box 30 30 5 5] ! 1) \<le> 5 / 10"
    by blast
  then have "intersectionOverUnion world0 (mk_box 0 0 20 20) (mk_box 0 0 10 10) \<le> 5 / 10"
    by simp
  then show ?thesis using h out idem by simp
qed

section \<open>Properties of the crop loop and of one image\<close>

lemma crop_one_Inr:
  "crop_one env img request url job_dir image_index idx wc bbox = (wc', Inr entry) \<Longrightarrow>
     stored env img bbox \<and> sf_bbox entry = rect_of bbox \<and>
     sf_dimensions entry = (box_width (clamp img bbox), box_height (clamp img bbox))"
  by (auto simp: crop_one_def stored_def rect_of_def crop_bounding_box_eq crop_size Let_def
      split: sum.splits if_splits)

lemma crop_one_Inl:
  "crop_one env img request url job_dir image_index idx wc bbox = (wc', Inl err) \<Longrightarrow>
     \<not> stored env img bbox \<and> \<not> download_tagged err"
  by (auto simp: crop_one_def stored_def download_tagged_def Let_def split: sum.splits)

lemma crop_boxes_state:
  "crop_boxes env img request url job_dir image_index idx wc saved errs boxes =
     (saved @ fst (crop_boxes env img request url job_dir image_index idx wc [] [] boxes),
      errs @ snd (crop_boxes env img request url job_dir image_index idx wc [] [] boxes))"
proof (induction boxes arbitrary: idx wc saved errs)
  case Nil
  show ?case by simp
next
  case (Cons b boxes)
  obtain wc' r where one: "crop_one env img request url job_dir image_index idx wc b = (wc', r)"
    by (cases "crop_one env img request url job_dir image_index idx wc b")
  show ?case
  proof (cases r)
    case (Inl err)
    show ?thesis
      using Cons.IH[of "idx + 1" wc' saved "errs @ [err]"] Cons.IH[of "idx + 1" wc' "[]" "[err]"]
      by (simp add: one Inl)
  next
    case (Inr entry)
    show ?thesis
      using Cons.IH[of "idx + 1" wc' "saved @ [entry]" errs] Cons.IH[of "idx + 1" wc' "[entry]" "[]"]
      by (simp add: one Inr)
  qed
qed

lemma crop_boxes_fresh:
  "map sf_bbox (fst (crop_boxes env img request url job_dir image_index idx wc [] [] boxes))
     = map rect_of (filter (stored env img) boxes) \<and>
   map sf_dimensions (fst (crop_boxes env img request url job_dir image_index idx wc [] [] boxes))
     = map (\<lambda>b. (box_width (clamp img b), box_height (clamp img b))) (filter (stored env img) boxes) \<and>
   (\<forall>s \<in> set (snd (crop_boxes env img request url job_dir image_index idx wc [] [] boxes)).
      \<not> download_tagged s) \<and>
   length (fst (crop_boxes env img request url job_dir image_index idx wc [] [] boxes))
     + length (snd (crop_boxes env img request url job_dir image_index idx wc [] [] boxes))
     = length boxes"
proof (induction boxes arbitrary: idx wc)
  case Nil
  show ?case by simp
next
  case (Cons b boxes)
  obtain wc' r where one: "crop_one env img request url job_dir image_index idx wc b = (wc', r)"
    by (cases "crop_one env img request url job_dir image_index idx wc b")
  show ?case
  proof (cases r)
    case (Inl err)
    have st: "crop_boxes env img request url job_dir image_index idx wc [] [] (b # boxes)
        = (fst (crop_boxes env img request url job_dir image_index (idx + 1) wc' [] [] boxes),
           err # snd (crop_boxes env img request url job_dir image_index (idx + 1) wc' [] [] boxes))"
      using crop_boxes_state[of env img request url job_dir image_index "idx + 1" wc' "[]" "[err]" boxes]
      by (simp add: one Inl)
    from crop_one_Inl[OF one[unfolded Inl]] Cons.IH[of "idx + 1" wc']
    show ?thesis unfolding st by simp
  next
    case (Inr entry)
    have st: "crop_boxes env img request url job_dir image_index idx wc [] [] (b # boxes)
        = (entry # fst (crop_boxes env img request url job_dir image_index (idx + 1) wc' [] [] boxes),
           snd (crop_boxes env img request url job_dir image_index (idx + 1) wc' [] [] boxes))"
      using crop_boxes_state[of env img request url job_dir image_index "idx + 1" wc' "[entry]" "[]" boxes]
      by (simp add: one Inr)
    from crop_one_Inr[OF one[unfolded Inr]] Cons.IH[of "idx + 1" wc']
    show ?thesis unfolding st by simp
  qed
qed


lemma crop_stage_not_tagged:
  "(\<forall>s \<in> set errs. \<not> download_tagged s) \<Longrightarrow>
     \<forall>s \<in> set (snd (crop_stage env img request url job_dir image_index errs boxes)).
       \<not> download_tagged s"
proof (cases boxes)
  case None
  assume "\<forall>s \<in> set errs. \<not> download_tagged s"
  then show ?thesis by (simp add: crop_stage_def None download_tagged_def)
next
  case (Some bs)
  assume a: "\<forall>s \<in> set errs. \<not> download_tagged s"
  show ?thesis
  proof (cases bs)
    case Nil
    with a show ?thesis by (simp add: crop_stage_def Some download_tagged_def)
  next
    case (Cons b rest)
    have "snd (crop_stage env img request url job_dir image_index errs boxes)
        = errs @ snd (crop_boxes env img request url job_dir image_index 0 0 [] [] (b # rest))"
      using crop_boxes_state[of env img request url job_dir image_index 0 0 "[]" errs "b # rest"]
      by (simp add: crop_stage_def Some Cons)
    with a crop_boxes_fresh[of env img request url job_dir image_index 0 0 "b # rest"]
    show ?thesis by auto
  qed
qed

lemma detect_objects_http:
  "detect_objects env img conf wo = Inl x \<Longrightarrow> \<exists>code detail. x = HTTPException code detail"
  by (auto simp: detect_objects_def model_based_def Let_def
      split: if_splits sum.splits raised.splits)

lemma process_single_image_download_failed:
  "fetch env url = Inl e \<Longrightarrow>
     process_single_image env url request job_dir image_index
       = Inl (HTTPException 400 (''Failed to download image: '' @ e))"
  by (simp add: process_single_image_def process_single_image_with_def download_image_def)

lemma process_single_image_downloaded:
  "fetch env url = Inr img \<Longrightarrow>
     process_single_image env url request job_dir image_index =
       (if use_detection request
        then (case detect_objects env img (confidence_threshold request) (detect_windows_only request) of
                Inl x \<Rightarrow> Inl x
              | Inr detected \<Rightarrow>
                  if detected = []
                  then Inr ([], [''No objects detected in image '' @ str_nat (image_index + 1)
                                 @ (if detect_windows_only request
                                    then '' (no windows found)'' else [])])
                  else Inr (crop_stage env img request url job_dir image_index [] (Some detected)))
        else Inr (crop_stage env img request url job_dir image_index [] (bounding_boxes request)))"
proof (cases "detect_objects env img (confidence_threshold request) (detect_windows_only request)")
  case (Inl x)
  assume f: "fetch env url = Inr img"
  from detect_objects_http[OF Inl] obtain code detail where "x = HTTPException code detail"
    by blast
  with f Inl show ?thesis
    by (simp add: process_single_image_def process_single_image_with_def download_image_def)
next
  case (Inr detected)
  assume f: "fetch env url = Inr img"
  with Inr show ?thesis
    by (simp add: process_single_image_def process_single_image_with_def download_image_def)
qed

lemma process_single_image_http:
  "process_single_image env url request job_dir image_index = Inl x \<Longrightarrow>
     \<exists>code detail. x = HTTPException code detail"
proof (cases "fetch env url")
  case (Inl e)
  assume "process_single_image env url request job_dir image_index = Inl x"
  with process_single_image_download_failed[OF Inl, of request job_dir image_index]
  have "x = HTTPException 400 (''Failed to download image: '' @ e)" by simp
  then show ?thesis by blast
next
  case (Inr img)
  assume "process_single_image env url request job_dir image_index = Inl x"
  then show ?thesis
    unfolding process_single_image_downloaded[OF Inr]
    by (auto split: if_splits sum.splits dest: detect_objects_http)
qed

lemma process_single_image_Inr:
  assumes "process_single_image env url request job_dir image_index = Inr (saved, errs)"
  shows "(\<exists>img. fetch env url = Inr img) \<and> (\<forall>s \<in> set errs. \<not> download_tagged s)"
proof (cases "fetch env url")
  case (Inl e)
  with assms process_single_image_download_failed[OF Inl, of request job_dir image_index]
  show ?thesis by simp
next
  case (Inr img)
  have nt: "\<forall>s \<in> set (snd (crop_stage env img request url job_dir image_index [] boxes)).
       \<not> download_tagged s" for boxes
    by (rule crop_stage_not_tagged) simp
  from assms have "(\<exists>boxes. crop_stage env img request url job_dir image_index [] boxes = (saved, errs))
      \<or> errs = [''No objects detected in image '' @ str_nat (image_index + 1)
                  @ (if detect_windows_only request then '' (no windows found)'' else [])]"
    unfolding process_single_image_downloaded[OF Inr]
    by (auto split: if_splits sum.splits)
  then have "\<forall>s \<in> set errs. \<not> download_tagged s"
  proof
    assume "\<exists>boxes. crop_stage env img request url job_dir image_index [] boxes = (saved, errs)"
    then obtain boxes where "crop_stage env img request url job_dir image_index [] boxes = (saved, errs)"
      by blast
    then have "errs = snd (crop_stage env img request url job_dir image_index [] boxes)"
      by simp
    with nt[of boxes] show ?thesis by simp
  next
    assume "errs = [''No objects detected in image '' @ str_nat (image_index + 1)
                  @ (if detect_windows_only request then '' (no windows found)'' else [])]"
    then show ?thesis by (simp add: download_tagged_def)
  qed
  with Inr show ?thesis by simp
qed

section \<open>Properties of the job\<close>

lemma process_images_aborts:
  "\<exists>u \<in> set urls. \<exists>e. fetch env u = Inl e \<Longrightarrow>
     \<exists>code detail. process_images env request job_dir idx all_saved all_errs urls
        = Inl (HTTPException code detail)"
proof (induction urls arbitrary: idx all_saved all_errs)
  case Nil
  then show ?case by simp
next
  case (Cons url rest)
  show ?case
  proof (cases "process_single_image env url request job_dir idx")
    case (Inl x)
    from process_single_image_http[OF Inl] obtain code detail
      where "x = HTTPException code detail" by blast
    with Inl show ?thesis by simp
  next
    case (Inr r)
    obtain saved errs where r: "r = (saved, errs)" by (cases r)
    from process_single_image_Inr[OF Inr[unfolded r]] obtain img where "fetch env url = Inr img"
      by blast
    with Cons.prems have "\<exists>u \<in> set rest. \<exists>e. fetch env u = Inl e" by auto
    from Cons.IH[OF this, of "idx + 1" "all_saved @ saved" "all_errs @ errs"]
    show ?thesis by (simp add: Inr r)
  qed
qed

lemma process_images_Inr:
  "process_images env request job_dir idx all_saved all_errs urls = Inr (saved, errs) \<Longrightarrow>
     (\<forall>u \<in> set urls. \<exists>img. fetch env u = Inr img) \<and>
     (\<forall>s \<in> set errs. download_tagged s \<longrightarrow> s \<in> set all_errs)"
proof (induction urls arbitrary: idx all_saved all_errs)
  case Nil
  then show ?case by simp
next
  case (Cons url rest)
  show ?case
  proof (cases "process_single_image env url request job_dir idx")
    case (Inl x)
    from process_single_image_http[OF Inl] obtain code detail
      where "x = HTTPException code detail" by blast
    with Inl Cons.prems show ?thesis by simp
  next
    case (Inr r)
    obtain saved1 errs1 where r: "r = (saved1, errs1)" by (cases r)
    from process_single_image_Inr[OF Inr[unfolded r]]
    have dl: "\<exists>img. fetch env url = Inr img" and nt: "\<forall>s \<in> set errs1. \<not> download_tagged s"
      by blast+
    from Cons.prems have "process_images env request job_dir (idx + 1) (all_saved @ saved1)
        (all_errs @ errs1) rest = Inr (saved, errs)"
      by (simp add: Inr r)
    from Cons.IH[OF this] dl nt show ?thesis by auto
  qed
qed

lemma process_images_completes:
  "\<not> use_detection request \<Longrightarrow> \<forall>u \<in> set urls. \<exists>img. fetch env u = Inr img \<Longrightarrow>
     \<exists>r. process_images env request job_dir idx all_saved all_errs urls = Inr r"
proof (induction urls arbitrary: idx all_saved all_errs)
  case Nil
  then show ?case by simp
next
  case (Cons url rest)
  from Cons.prems obtain img where f: "fetch env url = Inr img" by auto
  obtain saved errs where c: "crop_stage env img request url job_dir idx [] (bounding_boxes request) = (saved, errs)"
    by (cases "crop_stage env img request url job_dir idx [] (bounding_boxes request)")
  have one: "process_single_image env url request job_dir idx = Inr (saved, errs)"
    using Cons.prems(1) by (simp add: process_single_image_downloaded[OF f] c)
  from Cons.prems have "\<forall>u \<in> set rest. \<exists>img. fetch env u = Inr img" by simp
  from Cons.IH[OF Cons.prems(1) this, of "idx + 1" "all_saved @ saved" "all_errs @ errs"]
  show ?case by (simp add: one)
qed

text \<open>
  Claim C1, amended: for every job with N image URLs, if any of them fails to download
  the job is aborted with an HTTP error and no report is returned; a report is returned
  only when every image was downloaded, and then its \<open>images_processed\<close> equals N, its
  \<open>saved_count\<close> is the number of its artifacts and its error list has no
  download-tagged entry; with detection off and all N downloads succeeding the job
  always completes.
\<close>

theorem download_failure_aborts_job:
  assumes "get_image_urls request = Inr urls"
  shows "((\<exists>u \<in> set urls. \<exists>e. fetch env u = Inl e) \<longrightarrow>
            (\<exists>code detail. crop_image env request = Inl (HTTPException code detail))) \<and>
         (\<forall>report. crop_image env request = Inr report \<longrightarrow>
            (\<forall>u \<in> set urls. \<exists>img. fetch env u = Inr img) \<and>
            rep_images_processed report = length urls \<and>
            rep_saved_count report = length (rep_saved_files report) \<and>
            (\<forall>s \<in> set (rep_errors report). \<not> download_tagged s)) \<and>
         (\<not> use_detection request \<and> (\<forall>u \<in> set urls. \<exists>img. fetch env u = Inr img) \<longrightarrow>
            (\<exists>report. crop_image env request = Inr report))"
proof (intro conjI allI impI)
  let ?dir = "path_join (OUTPUT_DIR env) (utc_now env @ ''_'' @ uuid_hex env)"
  have ci: "crop_image env request =
     (case process_images env request ?dir 0 [] [] urls of
        Inl e \<Rightarrow> Inl e
      | Inr (all_saved_files, all_errors) \<Rightarrow>
          Inr \<lparr> rep_status = ''success'', rep_job_id = uuid_hex env, rep_output_dir = ?dir,
                rep_images_processed = length urls, rep_saved_count = length all_saved_files,
                rep_saved_files = all_saved_files, rep_errors = all_errors \<rparr>)"
    by (simp add: crop_image_def assms Let_def split: sum.splits)
  {
    assume "\<exists>u \<in> set urls. \<exists>e. fetch env u = Inl e"
    from process_images_aborts[OF this, of request ?dir 0 "[]" "[]"]
    show "\<exists>code detail. crop_image env request = Inl (HTTPException code detail)"
      by (auto simp: ci)
  }
  {
    fix report
    assume rep: "crop_image env request = Inr report"
    then obtain saved errs where pi: "process_images env request ?dir 0 [] [] urls = Inr (saved, errs)"
      and r: "report = \<lparr> rep_status = ''success'', rep_job_id = uuid_hex env, rep_output_dir = ?dir,
                rep_images_processed = length urls, rep_saved_count = length saved,
                rep_saved_files = saved, rep_errors = errs \<rparr>"
      by (auto simp: ci split: sum.splits)
    from process_images_Inr[OF pi]
    have a: "\<forall>u \<in> set urls. \<exists>img. fetch env u = Inr img"
      and b: "\<forall>s \<in> set errs. \<not> download_tagged s" by auto
    show "\<forall>u \<in> set urls. \<exists>img. fetch env u = Inr img" by (rule a)
    show "rep_images_processed report = length urls" by (simp add: r)
    show "rep_saved_count report = length (rep_saved_files report)" by (simp add: r)
    show "\<forall>s \<in> set (rep_errors report). \<not> download_tagged s" using b by (simp add: r)
  }
  {
    assume "\<not> use_detection request \<and> (\<forall>u \<in> set urls. \<exists>img. fetch env u = Inr img)"
    then have "\<exists>r. process_images env request ?dir 0 [] [] urls = Inr r"
      by (intro process_images_completes) simp_all
    then show "\<exists>report. crop_image env request = Inr report"
      by (auto simp: ci)
  }
qed


text \<open>
  Claim C1, as stated: a job with N image URLs of which M fail to download completes
  with a report. In the code \<open>download_image\<close> turns every failure into an
  \<open>HTTPException\<close>, which \<open>process_single_image\<close> (line 348) and \<open>crop_image\<close>
  (line 480) re-raise: with the two URLs \<open>A\<close> (downloads) and \<open>C\<close> (times out) the
  request ends with the HTTP error 400 and no report.
\<close>

theorem download_failure_counterexample:
  "crop_image world0
     (request0\<lparr> image_urls := Some [''A'', ''C''], bounding_boxes := Some [mk_box 10 10 50 50] \<rparr>)
   = Inl (HTTPException 400 ''Failed to download image: timed out'')"
  by code_simp

theorem download_failure_aborts_job_witness:
  "get_image_urls (request0\<lparr> image_urls := Some [''A'', ''C''],
       bounding_boxes := Some [mk_box 10 10 50 50] \<rparr>) = Inr [''A'', ''C''] \<and>
   fetch world0 ''C'' = Inl ''timed out'' \<and>
   (\<exists>code detail. crop_image world0 (request0\<lparr> image_urls := Some [''A'', ''C''],
       bounding_boxes := Some [mk_box 10 10 50 50] \<rparr>) = Inl (HTTPException code detail)) \<and>
   get_image_urls (request0\<lparr> image_urls := Some [''A'', ''B''],
       bounding_boxes := Some [mk_box 10 10 50 50] \<rparr>) = Inr [''A'', ''B''] \<and>
   \<not> use_detection (request0\<lparr> image_urls := Some [''A'', ''B''],
       bounding_boxes := Some [mk_box 10 10 50 50] \<rparr>) \<and>
   fetch world0 ''A'' = Inr (blank 100 100) \<and> fetch world0 ''B'' = Inr (blank 100 100) \<and>
   (\<exists>report. crop_image world0 (request0\<lparr> image_urls := Some [''A'', ''B''],
       bounding_boxes := Some [mk_box 10 10 50 50] \<rparr>) = Inr report \<and>
     rep_images_processed report = 2 \<and>
     rep_saved_count report = length (rep_saved_files report) \<and>
     filter download_tagged (rep_errors report) = [])"
proof -
  let ?bad = "request0\<lparr> image_urls := Some [''A'', ''C''],
       bounding_boxes := Some [mk_box 10 10 50 50] \<rparr>"
  let ?good = "request0\<lparr> image_urls := Some [''A'', ''B''],
       bounding_boxes := Some [mk_box 10 10 50 50] \<rparr>"
  have u1: "get_image_urls ?bad = Inr [''A'', ''C'']"
    by (simp add: get_image_urls_def request0_def)
  have u2: "get_image_urls ?good = Inr [''A'', ''B'']"
    by (simp add: get_image_urls_def request0_def)
  have f: "fetch world0 ''C'' = Inl ''timed out''" "fetch world0 ''A'' = Inr (blank 100 100)"
    "fetch world0 ''B'' = Inr (blank 100 100)"
    by (simp_all add: world0_def)
  have nd: "\<not> use_detection ?good" by (simp add: request0_def)
  have ex: "\<exists>u \<in> set [''A'', ''C'']. \<exists>e. fetch world0 u = Inl e" using f by simp
  have all: "\<forall>u \<in> set [''A'', ''B'']. \<exists>img. fetch world0 u = Inr img" using f by simp
  from download_failure_aborts_job[OF u1, of world0] ex
  have 1: "\<exists>code detail. crop_image world0 ?bad = Inl (HTTPException code detail)"
    by blast
  from download_failure_aborts_job[OF u2, of world0] nd all
  obtain report where r: "crop_image world0 ?good = Inr report" by blast
  with download_failure_aborts_job[OF u2, of world0]
  have "rep_images_processed report = length [''A'', ''B'']"
    "rep_saved_count report = length (rep_saved_files report)"
    "\<forall>s \<in> set (rep_errors report). \<not> download_tagged s"
    by blast+
  then have "rep_images_processed report = 2 \<and>
     rep_saved_count report = length (rep_saved_files report) \<and>
     filter download_tagged (rep_errors report) = []"
    by (simp add: filter_empty_conv)
  with r have 2: "\<exists>report. crop_image world0 ?good = Inr report \<and>
     rep_images_processed report = 2 \<and>
     rep_saved_count report = length (rep_saved_files report) \<and>
     filter download_tagged (rep_errors report) = []"
    by blast
  show ?thesis using u1 u2 f nd 1 2 by blast
qed

text \<open>
  Claim C2, as stated: with \<open>use_detection\<close> set, the model library not importable and
  no boxes supplied, the job completes with one error per image. In the code the
  \<open>ImportError\<close> becomes an \<open>HTTPException\<close> with status 400 (lines 174-178), which is
  re-raised up to the request: the job for the two downloadable images \<open>A\<close> and \<open>B\<close> ends
  with that error and no report.
\<close>

theorem missing_model_library_counterexample:
  "crop_image world0 (request0\<lparr> image_urls := Some [''A'', ''B''], use_detection := True \<rparr>)
   = Inl (HTTPException 400 ''YOLO not installed. Install with: pip install ultralytics'')"
  by code_simp

text \<open>
  Claim C2, amended: for every request with \<open>use_detection\<close> set where the model library
  is not importable, once the first image is downloaded and reaches the model-based
  detector (windows-only mode is off, or the primitive detector finds no box in it), the
  whole request fails with the HTTP error 400 \<open>YOLO not installed. Install with: pip
  install ultralytics\<close>; no report is produced and the remaining images are not
  processed, whether or not boxes were supplied.
\<close>

theorem missing_model_library_fails_request:
  assumes "use_detection request" and "\<not> yolo_importable env"
    and "get_image_urls request = Inr (url # rest)"
    and "fetch env url = Inr img"
    and "detect_windows_only request \<longrightarrow>
           detect_windows_advanced env img (confidence_threshold request) = []"
  shows "crop_image env request
         = Inl (HTTPException 400 ''YOLO not installed. Install with: pip install ultralytics'')"
proof -
  have "detect_objects env img (confidence_threshold request) (detect_windows_only request)
        = Inl (HTTPException 400 ''YOLO not installed. Install with: pip install ultralytics'')"
    using assms(2,5) by (simp add: detect_objects_def model_based_def)
  then have "process_single_image env url request job_dir idx
        = Inl (HTTPException 400 ''YOLO not installed. Install with: pip install ultralytics'')"
    for job_dir idx
    using assms(1) by (simp add: process_single_image_downloaded[OF assms(4)])
  then show ?thesis
    by (simp add: crop_image_def assms(3) Let_def)
qed

theorem missing_model_library_fails_request_witness:
  "use_detection (request0\<lparr> image_urls := Some [''A'', ''B''], use_detection := True,
       detect_windows_only := True \<rparr>) \<and>
   \<not> yolo_importable world0 \<and>
   get_image_urls (request0\<lparr> image_urls := Some [''A'', ''B''], use_detection := True,
       detect_windows_only := True \<rparr>) = Inr [''A'', ''B''] \<and>
   fetch world0 ''A'' = Inr (blank 100 100) \<and>
   detect_windows_advanced world0 (blank 100 100) (5 / 10) = [] \<and>
   crop_image world0 (request0\<lparr> image_urls := Some [''A'', ''B''], use_detection := True,
       detect_windows_only := True \<rparr>)
     = Inl (HTTPException 400 ''YOLO not installed. Install with: pip install ultralytics'')"
proof -
  let ?req = "request0\<lparr> image_urls := Some [''A'', ''B''], use_detection := True,
       detect_windows_only := True \<rparr>"
  have h1: "use_detection ?req" by (simp add: request0_def)
  have h2: "\<not> yolo_importable world0" by (simp add: world0_def)
  have h3: "get_image_urls ?req = Inr (''A'' # [''B''])"
    by (simp add: get_image_urls_def request0_def)
  have h4: "fetch world0 ''A'' = Inr (blank 100 100)" by (simp add: world0_def)
  have h5: "detect_windows_advanced world0 (blank 100 100) (5 / 10) = []"
    by (simp add: detect_windows_advanced_def world0_def)
  have h5': "detect_windows_only ?req \<longrightarrow>
      detect_windows_advanced world0 (blank 100 100) (confidence_threshold ?req) = []"
    using h5 by (simp add: request0_def)
  show ?thesis
    using missing_model_library_fails_request[OF h1 h2 h3 h4 h5'] h1 h2 h3 h4 h5 by simp
qed




text \<open>
  Claim C3, as stated: the saved entry carries the box after clamping. In the code the
  entry stores \<open>bbox.x\<close>, \<open>bbox.y\<close>, \<open>bbox.width\<close>, \<open>bbox.height\<close> of the box it was
  given (lines 430-435): for the supplied box \<open>(-5, -5, 20, 20)\<close> on a 100 by 100 image
  the entry carries \<open>(-5, -5, 20, 20)\<close>, while the clamped box is \<open>(0, 0, 20, 20)\<close>.
\<close>

theorem saved_entry_box_counterexample:
  "(case process_single_image world0 ''A''
           (request0\<lparr> image_url := Some ''A'', bounding_boxes := Some [mk_box (- 5) (- 5) 20 20] \<rparr>)
           ''/srv/job'' 0 of
      Inl e \<Rightarrow> []
    | Inr (saved_files, errors) \<Rightarrow> map sf_bbox saved_files) = [(- 5, - 5, 20, 20)] \<and>
   rect_of (clamp (blank 100 100) (mk_box (- 5) (- 5) 20 20)) = (0, 0, 20, 20)"
  by code_simp

text \<open>
  Claim C3, amended: for every box that is cropped and encoded successfully, the entry
  appended to the saved list carries under \<open>bbox\<close> the supplied box unchanged (the box
  before clamping); the width and height after clamping appear only as the entry's
  \<open>dimensions\<close>. The entries are appended in the order of the boxes.
\<close>

theorem saved_entry_carries_supplied_box:
  "map sf_bbox (fst (crop_boxes env img request url job_dir image_index idx window_count
                       saved_files errors boxes))
     = map sf_bbox saved_files @ map rect_of (filter (stored env img) boxes) \<and>
   map sf_dimensions (fst (crop_boxes env img request url job_dir image_index idx window_count
                             saved_files errors boxes))
     = map sf_dimensions saved_files
       @ map (\<lambda>b. (box_width (clamp img b), box_height (clamp img b)))
           (filter (stored env img) boxes)"
  using crop_boxes_state[of env img request url job_dir image_index idx window_count
      saved_files errors boxes]
    crop_boxes_fresh[of env img request url job_dir image_index idx window_count boxes]
  by simp

theorem saved_entry_carries_supplied_box_witness:
  "map sf_bbox (fst (crop_boxes world0 (blank 100 100) request0 ''A'' ''/srv/job'' 0 0 0 [] []
        [mk_box (- 5) (- 5) 20 20, mk_box 100 0 5 5, mk_box 90 90 20 20]))
     = [(- 5, - 5, 20, 20), (90, 90, 20, 20)] \<and>
   map sf_dimensions (fst (crop_boxes world0 (blank 100 100) request0 ''A'' ''/srv/job'' 0 0 0 [] []
        [mk_box (- 5) (- 5) 20 20, mk_box 100 0 5 5, mk_box 90 90 20 20]))
     = [(20, 20), (10, 10)]"
proof -
  have f: "filter (stored world0 (blank 100 100))
        [mk_box (- 5) (- 5) 20 20, mk_box 100 0 5 5, mk_box 90 90 20 20]
      = [mk_box (- 5) (- 5) 20 20, mk_box 90 90 20 20]"
    by (simp add: stored_def crop_bounding_box_def world0_def mk_box_def blank_def)
  have r1: "map rect_of [mk_box (- 5) (- 5) 20 20, mk_box 90 90 20 20]
      = [(- 5, - 5, 20, 20), (90, 90, 20, 20)]"
    by (simp add: rect_of_def mk_box_def)
  have r2: "map (\<lambda>b. (box_width (clamp (blank 100 100) b), box_height (clamp (blank 100 100) b)))
        [mk_box (- 5) (- 5) 20 20, mk_box 90 90 20 20] = [(20, 20), (10, 10)]"
    by (simp add: clamp_def mk_box_def blank_def)
  show ?thesis
    using saved_entry_carries_supplied_box[of world0 "blank 100 100" request0 "''A''"
        "''/srv/job''" 0 0 0 "[]" "[]"
        "[mk_box (- 5) (- 5) 20 20, mk_box 100 0 5 5, mk_box 90 90 20 20]"]
    unfolding f r1 r2 by (simp only: list.map append_Nil)
qed

text \<open>
  Claim C5 on the code: the two-image job with one shared box. The test of line 394 is
  \<open>image_index > 0\<close>, so the artifact of the first image gets no \<open>img1_\<close> prefix: the
  file names are \<open>001_crop_1.jpg\<close> and \<open>img2_001_crop_1.jpg\<close>, not
  \<open>img1_001_crop_1.jpg\<close> and \<open>img2_001_crop_1.jpg\<close>.
\<close>

theorem two_image_job_filenames:
  "(case crop_image world0
           (request0\<lparr> image_urls := Some [''A'', ''B''],
                       bounding_boxes := Some [mk_box 10 10 50 50] \<rparr>) of
      Inl e \<Rightarrow> []
    | Inr report \<Rightarrow> map sf_filename (rep_saved_files report))
   = [''001_crop_1.jpg'', ''img2_001_crop_1.jpg'']"
  by code_simp

end
